theory Spec2Isabelle
  imports Main "HOL-Library.Word" "HOL-Library.AList"
begin

unbundle bit_operations_syntax

section \<open>JavaScript strings\<close>

text \<open>
  A JavaScript string is a sequence of UTF-16 code units; \<open>length\<close>, \<open>slice\<close>,
  \<open>lastIndexOf\<close> and \<open>trim\<close> all count code units. A string literal of the source
  is written with \<open>str\<close>, which maps each ASCII character to its code unit.
\<close>

type_synonym code_unit = "16 word"
type_synonym jsstring = "code_unit list"

definition str :: "string \<Rightarrow> jsstring" where
  "str s = map (\<lambda>c. of_nat (of_char c)) s"

text \<open>
  \<open>s.slice(start, end)\<close> (strings and arrays alike): a negative index counts from
  the end, both indices are clamped to the length, and an empty range gives the empty
  sequence.
\<close>

definition js_slice :: "'a list \<Rightarrow> int \<Rightarrow> int \<Rightarrow> 'a list" where
  "js_slice s start end =
     (let len = int (length s);
          from = (if start < 0 then max (len + start) 0 else min start len);
          to = (if end < 0 then max (len + end) 0 else min end len)
      in take (nat (to - from)) (drop (nat from) s))"

text \<open>
  \<open>s.lastIndexOf(searchString, position)\<close>: the greatest index \<open>i\<close> with
  \<open>0 \<le> i \<le> min (max position 0) (len - searchLen)\<close> at which \<open>searchString\<close>
  occurs, or \<open>-1\<close>.
\<close>

fun lastIndexFrom :: "'a list \<Rightarrow> 'a list \<Rightarrow> nat \<Rightarrow> int" where
  "lastIndexFrom s searchString 0 =
     (if take (length searchString) s = searchString then 0 else - 1)"
| "lastIndexFrom s searchString (Suc i) =
     (if take (length searchString) (drop (Suc i) s) = searchString then int (Suc i)
      else lastIndexFrom s searchString i)"

definition lastIndexOf :: "'a list \<Rightarrow> 'a list \<Rightarrow> int \<Rightarrow> int" where
  "lastIndexOf s searchString position =
     (if length s < length searchString then - 1
      else lastIndexFrom s searchString
             (nat (min (max position 0) (int (length s) - int (length searchString)))))"

text \<open>
  \<open>s.trim()\<close> removes leading and trailing white space and line terminators:
  U+0009..U+000D, U+0020, U+00A0, U+1680, U+2000..U+200A, U+2028, U+2029, U+202F,
  U+205F, U+3000 and U+FEFF.
\<close>

definition isWhiteSpace :: "code_unit \<Rightarrow> bool" where
  "isWhiteSpace c =
     (c \<in> set [0x9, 0xA, 0xB, 0xC, 0xD, 0x20, 0xA0, 0x1680,
                0x2000, 0x2001, 0x2002, 0x2003, 0x2004, 0x2005, 0x2006, 0x2007,
                0x2008, 0x2009, 0x200A, 0x2028, 0x2029, 0x202F, 0x205F, 0x3000, 0xFEFF])"

definition trim :: "jsstring \<Rightarrow> jsstring" where
  "trim s = rev (dropWhile isWhiteSpace (rev (dropWhile isWhiteSpace s)))"


section \<open>The chunker (src/embeddings.js)\<close>

text \<open>
  \<open>chunkText(text, maxChunkSize = 1000, overlap = 100)\<close>. The offsets \<open>start\<close> and
  \<open>end\<close> are JavaScript numbers; they are integers here, and the test
  \<open>lastBreak > start + maxChunkSize / 2\<close> is written without the division.
\<close>

definition breakPoints :: "jsstring list" where
  "breakPoints = [str ''\<newline>\<newline>'', str ''\<newline>'', str ''. '', str ''! '', str ''? '']"

text \<open>
  The \<open>for (const bp of breakPoints)\<close> loop with its \<open>break\<close>: the first break
  point whose last occurrence at or before \<open>end\<close> lies beyond the middle of the window
  moves \<open>end\<close> just behind it; with none, \<open>end\<close> stays.
\<close>

fun findBreak :: "jsstring \<Rightarrow> int \<Rightarrow> int \<Rightarrow> int \<Rightarrow> jsstring list \<Rightarrow> int" where
  "findBreak text start maxChunkSize end [] = end"
| "findBreak text start maxChunkSize end (bp # bps) =
     (let lastBreak = lastIndexOf text bp end
      in if 2 * lastBreak > 2 * start + maxChunkSize then lastBreak + int (length bp)
         else findBreak text start maxChunkSize end bps)"

text \<open>The value of \<open>end\<close> when the chunk is pushed, in one iteration of the loop.\<close>

definition chunkEnd :: "jsstring \<Rightarrow> int \<Rightarrow> int \<Rightarrow> int" where
  "chunkEnd text maxChunkSize start =
     (let end = start + maxChunkSize
      in if end < int (length text) then findBreak text start maxChunkSize end breakPoints
         else end)"

text \<open>
  The \<open>while (start < text.length)\<close> loop. Nothing in the source bounds the number
  of iterations, so the loop is a partial function: \<open>None\<close> is a loop that never
  returns.
\<close>

partial_function (option) chunkLoop ::
  "jsstring \<Rightarrow> int \<Rightarrow> int \<Rightarrow> int \<Rightarrow> jsstring list \<Rightarrow> jsstring list option" where
  "chunkLoop text maxChunkSize overlap start chunks =
     (if start < int (length text)
      then chunkLoop text maxChunkSize overlap
             (chunkEnd text maxChunkSize start - overlap)
             (chunks @ [trim (js_slice text start (chunkEnd text maxChunkSize start))])
      else Some chunks)"

declare chunkLoop.simps [code]

definition chunkText :: "jsstring \<Rightarrow> int \<Rightarrow> int \<Rightarrow> jsstring list option" where
  "chunkText text maxChunkSize overlap =
     map_option (filter (\<lambda>c. length c > 0)) (chunkLoop text maxChunkSize overlap 0 [])"



section \<open>JavaScript values and objects\<close>

text \<open>
  The values a metadata object holds: \<open>null\<close>, booleans, numbers, strings and lists of
  strings. The numbers of the program are chunk indexes and chunk counts; \<open>JNum n\<close>
  stands for the number \<open>n\<close> where \<open>n\<close> is a safe integer (\<open>Number.isSafeInteger\<close>:
  an integer of magnitude at most \<open>2^53 - 1\<close>). Other integers are not all JavaScript
  numbers, and those that are have another rendering (17 significant digits, an
  exponent from \<open>10^21\<close>), so what is stated about the rendering of a number is stated
  for safe integers only.

  An object is the list of its own properties in enumeration order. For the keys the
  source assigns by name, none of them an array index, assigning a property
  (\<open>AList.update\<close>) overwrites it in place or appends it, which is what
  \<open>{ ...metadata, key: v }\<close> does.
\<close>

datatype jsval = JNull | JBool bool | JNum int | JStr jsstring | JList "jsstring list"

type_synonym metadata = "(jsstring \<times> jsval) list"

definition digit :: "nat \<Rightarrow> code_unit" where
  "digit n = of_nat (48 + n)"

function decNat :: "nat \<Rightarrow> jsstring" where
  "decNat n = (if n < 10 then [digit n] else decNat (n div 10) @ [digit (n mod 10)])"
  by pat_completeness auto
termination
  by (relation "measure id") auto

declare decNat.simps [simp del]

definition isSafeInteger :: "int \<Rightarrow> bool" where
  "isSafeInteger n \<longleftrightarrow> \<bar>n\<bar> \<le> 2 ^ 53 - 1"

text \<open>\<open>Number::toString\<close> of a safe integer: its decimal digits, behind a minus sign if negative.\<close>

definition numberToString :: "int \<Rightarrow> jsstring" where
  "numberToString n = (if n < 0 then str ''-'' @ decNat (nat (- n)) else decNat (nat n))"

fun intercalate :: "'a list \<Rightarrow> 'a list list \<Rightarrow> 'a list" where
  "intercalate sep [] = []"
| "intercalate sep [x] = x"
| "intercalate sep (x # y # ys) = x @ sep @ intercalate sep (y # ys)"

text \<open>
  \<open>ToString\<close>, which is also the property key a value stands for in \<open>obj[v]\<close>;
  \<open>None\<close> is \<open>undefined\<close>.
\<close>

fun jsToString :: "jsval option \<Rightarrow> jsstring" where
  "jsToString None = str ''undefined''"
| "jsToString (Some JNull) = str ''null''"
| "jsToString (Some (JBool b)) = (if b then str ''true'' else str ''false'')"
| "jsToString (Some (JNum n)) = numberToString n"
| "jsToString (Some (JStr s)) = s"
| "jsToString (Some (JList xs)) = intercalate (str '','') xs"

fun truthy :: "jsval option \<Rightarrow> bool" where
  "truthy None = False"
| "truthy (Some JNull) = False"
| "truthy (Some (JBool b)) = b"
| "truthy (Some (JNum n)) = (n \<noteq> 0)"
| "truthy (Some (JStr s)) = (s \<noteq> [])"
| "truthy (Some (JList xs)) = True"


section \<open>JSON.stringify\<close>

definition isLeadSurrogate :: "code_unit \<Rightarrow> bool" where
  "isLeadSurrogate c = (0xD800 \<le> c \<and> c \<le> 0xDBFF)"

definition isTrailSurrogate :: "code_unit \<Rightarrow> bool" where
  "isTrailSurrogate c = (0xDC00 \<le> c \<and> c \<le> 0xDFFF)"

definition hexDigit :: "nat \<Rightarrow> code_unit" where
  "hexDigit n = (if n < 10 then of_nat (48 + n) else of_nat (87 + n))"

text \<open>\<open>\uXXXX\<close> with lower-case hexadecimal digits.\<close>

definition unicodeEscape :: "code_unit \<Rightarrow> jsstring" where
  "unicodeEscape c =
     [0x5C, 0x75] @ map (\<lambda>i. hexDigit (unat (drop_bit i c AND 0xF))) [12, 8, 4, 0]"

text \<open>
  One code unit that is not a surrogate: the two-character escapes for backspace, tab,
  line feed, form feed, carriage return, the double quote and the backslash; \<open>\uXXXX\<close>
  for the other control characters; the code unit itself otherwise.
\<close>

definition escapeUnit :: "code_unit \<Rightarrow> jsstring" where
  "escapeUnit c =
     (if c = 0x08 then [0x5C, 0x62]
      else if c = 0x09 then [0x5C, 0x74]
      else if c = 0x0A then [0x5C, 0x6E]
      else if c = 0x0C then [0x5C, 0x66]
      else if c = 0x0D then [0x5C, 0x72]
      else if c = 0x22 then [0x5C, 0x22]
      else if c = 0x5C then [0x5C, 0x5C]
      else if c < 0x20 then unicodeEscape c
      else [c])"

text \<open>A surrogate pair is copied; a surrogate with no partner is escaped.\<close>

fun quoteUnits :: "jsstring \<Rightarrow> jsstring" where
  "quoteUnits [] = []"
| "quoteUnits [c] =
     (if isLeadSurrogate c \<or> isTrailSurrogate c then unicodeEscape c else escapeUnit c)"
| "quoteUnits (c # d # cs) =
     (if isLeadSurrogate c \<and> isTrailSurrogate d then c # d # quoteUnits cs
      else if isLeadSurrogate c \<or> isTrailSurrogate c then unicodeEscape c @ quoteUnits (d # cs)
      else escapeUnit c @ quoteUnits (d # cs))"

definition quoteJSONString :: "jsstring \<Rightarrow> jsstring" where
  "quoteJSONString s = [0x22] @ quoteUnits s @ [0x22]"

fun stringifyValue :: "jsval \<Rightarrow> jsstring" where
  "stringifyValue JNull = str ''null''"
| "stringifyValue (JBool b) = (if b then str ''true'' else str ''false'')"
| "stringifyValue (JNum n) = numberToString n"
| "stringifyValue (JStr s) = quoteJSONString s"
| "stringifyValue (JList xs) = str ''['' @ intercalate (str '','') (map quoteJSONString xs) @ str '']''"

definition stringifyProperty :: "jsstring \<times> jsval \<Rightarrow> jsstring" where
  "stringifyProperty p = quoteJSONString (fst p) @ str '':'' @ stringifyValue (snd p)"

definition stringify :: "metadata \<Rightarrow> jsstring" where
  "stringify obj = str ''{'' @ intercalate (str '','') (map stringifyProperty obj) @ str ''}''"


section \<open>The MD5 digest of a string\<close>

text \<open>
  \<open>crypto.createHash('md5').update(s).digest('hex')\<close>: the string is encoded in
  UTF-8 (a surrogate with no partner becomes U+FFFD), hashed with MD5 (RFC 1321), and
  the 16 bytes are written as 32 lower-case hexadecimal digits.
\<close>

type_synonym byte = "8 word"

definition utf8_of_code_point :: "32 word \<Rightarrow> byte list" where
  "utf8_of_code_point cp =
     (if cp < 0x80 then [ucast cp]
      else if cp < 0x800 then
        [ucast (0xC0 OR drop_bit 6 cp), ucast (0x80 OR (cp AND 0x3F))]
      else if cp < 0x10000 then
        [ucast (0xE0 OR drop_bit 12 cp), ucast (0x80 OR (drop_bit 6 cp AND 0x3F)),
         ucast (0x80 OR (cp AND 0x3F))]
      else
        [ucast (0xF0 OR drop_bit 18 cp), ucast (0x80 OR (drop_bit 12 cp AND 0x3F)),
         ucast (0x80 OR (drop_bit 6 cp AND 0x3F)), ucast (0x80 OR (cp AND 0x3F))])"

fun utf8 :: "jsstring \<Rightarrow> byte list" where
  "utf8 [] = []"
| "utf8 [c] =
     (if isLeadSurrogate c \<or> isTrailSurrogate c then [0xEF, 0xBF, 0xBD]
      else utf8_of_code_point (ucast c))"
| "utf8 (c # d # cs) =
     (if isLeadSurrogate c \<and> isTrailSurrogate d
      then utf8_of_code_point
             (0x10000 + push_bit 10 (ucast c - 0xD800) + (ucast d - 0xDC00)) @ utf8 cs
      else if isLeadSurrogate c \<or> isTrailSurrogate c then [0xEF, 0xBF, 0xBD] @ utf8 (d # cs)
      else utf8_of_code_point (ucast c) @ utf8 (d # cs))"

definition md5_K :: "32 word list" where
  "md5_K =
    [0xd76aa478, 0xe8c7b756, 0x242070db, 0xc1bdceee,
     0xf57c0faf, 0x4787c62a, 0xa8304613, 0xfd469501,
     0x698098d8, 0x8b44f7af, 0xffff5bb1, 0x895cd7be,
     0x6b901122, 0xfd987193, 0xa679438e, 0x49b40821,
     0xf61e2562, 0xc040b340, 0x265e5a51, 0xe9b6c7aa,
     0xd62f105d, 0x02441453, 0xd8a1e681, 0xe7d3fbc8,
     0x21e1cde6, 0xc33707d6, 0xf4d50d87, 0x455a14ed,
     0xa9e3e905, 0xfcefa3f8, 0x676f02d9, 0x8d2a4c8a,
     0xfffa3942, 0x8771f681, 0x6d9d6122, 0xfde5380c,
     0xa4beea44, 0x4bdecfa9, 0xf6bb4b60, 0xbebfbc70,
     0x289b7ec6, 0xeaa127fa, 0xd4ef3085, 0x04881d05,
     0xd9d4d039, 0xe6db99e5, 0x1fa27cf8, 0xc4ac5665,
     0xf4292244, 0x432aff97, 0xab9423a7, 0xfc93a039,
     0x655b59c3, 0x8f0ccc92, 0xffeff47d, 0x85845dd1,
     0x6fa87e4f, 0xfe2ce6e0, 0xa3014314, 0x4e0811a1,
     0xf7537e82, 0xbd3af235, 0x2ad7d2bb, 0xeb86d391]"

definition md5_s :: "nat list" where
  "md5_s =
    [7, 12, 17, 22, 7, 12, 17, 22, 7, 12, 17, 22, 7, 12, 17, 22,
     5, 9, 14, 20, 5, 9, 14, 20, 5, 9, 14, 20, 5, 9, 14, 20,
     4, 11, 16, 23, 4, 11, 16, 23, 4, 11, 16, 23, 4, 11, 16, 23,
     6, 10, 15, 21, 6, 10, 15, 21, 6, 10, 15, 21, 6, 10, 15, 21]"

text \<open>The \<open>k\<close> low bytes of a word, and the word of four bytes, least significant first.\<close>

definition le_bytes :: "nat \<Rightarrow> 'a::len word \<Rightarrow> byte list" where
  "le_bytes k w = map (\<lambda>i. ucast (drop_bit (8 * i) w)) [0..<k]"

definition le_word :: "byte list \<Rightarrow> 32 word" where
  "le_word bs = foldr (\<lambda>b w. ucast b OR push_bit 8 w) bs 0"

function blocksOf :: "nat \<Rightarrow> 'a list \<Rightarrow> 'a list list" where
  "blocksOf n xs = (if xs = [] \<or> n = 0 then [] else take n xs # blocksOf n (drop n xs))"
  by pat_completeness auto
termination
  by (relation "measure (\<lambda>(n, xs). length xs)") auto

declare blocksOf.simps [simp del]

text \<open>
  Padding: the byte \<open>0x80\<close>, zero bytes up to 56 modulo 64, and the length of the
  message in bits as 8 bytes.
\<close>

definition md5_pad :: "byte list \<Rightarrow> byte list" where
  "md5_pad msg =
     msg @ [0x80] @ replicate ((119 - length msg mod 64) mod 64) 0
         @ le_bytes 8 (8 * of_nat (length msg) :: 64 word)"

type_synonym md5_state = "32 word \<times> 32 word \<times> 32 word \<times> 32 word"

fun md5_step :: "32 word list \<Rightarrow> nat \<Rightarrow> md5_state \<Rightarrow> md5_state" where
  "md5_step M i (A, B, C, D) =
     (let (F, g) =
            (if i < 16 then ((B AND C) OR (NOT B AND D), i)
             else if i < 32 then ((D AND B) OR (NOT D AND C), (5 * i + 1) mod 16)
             else if i < 48 then (B XOR C XOR D, (3 * i + 5) mod 16)
             else (C XOR (B OR NOT D), (7 * i) mod 16))
      in (D, B + word_rotl (md5_s ! i) (F + A + md5_K ! i + M ! g), B, C))"

fun md5_block :: "md5_state \<Rightarrow> byte list \<Rightarrow> md5_state" where
  "md5_block (a0, b0, c0, d0) block =
     (case fold (md5_step (map le_word (blocksOf 4 block))) [0..<64] (a0, b0, c0, d0) of
        (A, B, C, D) \<Rightarrow> (a0 + A, b0 + B, c0 + C, d0 + D))"

definition md5 :: "byte list \<Rightarrow> byte list" where
  "md5 msg =
     (case fold (\<lambda>block st. md5_block st block) (blocksOf 64 (md5_pad msg))
             (0x67452301, 0xefcdab89, 0x98badcfe, 0x10325476) of
        (a, b, c, d) \<Rightarrow> concat (map (le_bytes 4) [a, b, c, d]))"

definition hex :: "byte list \<Rightarrow> jsstring" where
  "hex bs = concat (map (\<lambda>b. [hexDigit (unat b div 16), hexDigit (unat b mod 16)]) bs)"

definition md5_hex :: "jsstring \<Rightarrow> jsstring" where
  "md5_hex s = hex (md5 (utf8 s))"


section \<open>The identifier generator (src/context.js)\<close>

text \<open>
  \<open>generateId(text, metadata)\<close>: \<open>ctx_\<close> and the first 16 hexadecimal digits of the
  MD5 digest of \<open>text + JSON.stringify(metadata)\<close>.
\<close>

definition generateId :: "jsstring \<Rightarrow> metadata \<Rightarrow> jsstring" where
  "generateId text metadata =
     str ''ctx_'' @ js_slice (md5_hex (text @ stringify metadata)) 0 16"


section \<open>The store pipeline (src/context.js)\<close>

text \<open>
  The two external services are parameters of the model. A call to one of them either
  answers or throws; what it throws is \<open>ServiceError\<close>. \<open>TypeError\<close> is what
  JavaScript itself throws when a value that is not a function is called.
\<close>

datatype error = TypeError | ServiceError

text \<open>
  A vector as it is handed to \<open>index.upsert\<close>. \<open>values\<close> is \<open>embeddings[i]\<close>, which
  is \<open>undefined\<close> (\<open>None\<close>) when the provider returned fewer embeddings than chunks.
\<close>

record 'e vector =
  vec_id :: jsstring
  vec_values :: "'e option"
  vec_metadata :: metadata

text \<open>
  \<open>chunks.map((chunk, i) => ({ id, values, metadata }))\<close>. \<open>new Date()\<close> is read once
  for every chunk: \<open>clock i\<close> is \<open>new Date().toISOString()\<close> as read while the vector
  of chunk \<open>i\<close> is built.
\<close>

definition assembleVectors ::
  "(nat \<Rightarrow> jsstring) \<Rightarrow> jsstring list \<Rightarrow> 'e list \<Rightarrow> metadata \<Rightarrow> 'e vector list" where
  "assembleVectors clock chunks embeddings metadata =
     map (\<lambda>(i, chunk).
           \<lparr> vec_id =
               generateId chunk (AList.update (str ''chunkIndex'') (JNum (int i)) metadata),
             vec_values = (if i < length embeddings then Some (embeddings ! i) else None),
             vec_metadata =
               AList.update (str ''timestamp'') (JStr (clock i))
                 (AList.update (str ''totalChunks'') (JNum (int (length chunks)))
                   (AList.update (str ''chunkIndex'') (JNum (int i))
                     (AList.update (str ''text'') (JStr chunk) metadata))) \<rparr>)
         (enumerate 0 chunks)"

definition batchSize :: nat where
  "batchSize = 100"

text \<open>
  \<open>for (let i = 0; i < vectors.length; i += batchSize) await index.upsert(batch)\<close>.
  The result is the list of the batches \<open>index.upsert\<close> was called with, in call order,
  and the error that ended the loop, if one did: \<open>accepts n batch\<close> tells whether the
  index acknowledges \<open>batch\<close> as the call number \<open>n\<close> (counting from 0).
\<close>

function upsertBatches ::
  "(nat \<Rightarrow> 'v list \<Rightarrow> bool) \<Rightarrow> 'v list \<Rightarrow> nat \<Rightarrow> 'v list list \<Rightarrow> 'v list list \<times> error option"
  where
  "upsertBatches accepts vectors i calls =
     (if i < length vectors
      then let batch = js_slice vectors (int i) (int (i + batchSize))
           in if accepts (length calls) batch
              then upsertBatches accepts vectors (i + batchSize) (calls @ [batch])
              else (calls @ [batch], Some ServiceError)
      else (calls, None))"
  by pat_completeness auto
termination
  by (relation "measure (\<lambda>(accepts, vectors, i, calls). length vectors - i)")
     (auto simp: batchSize_def)

declare upsertBatches.simps [simp del]

text \<open>
  \<open>storeContext(text, metadata)\<close>: the batches upserted, and the ids returned or the
  error thrown. \<open>None\<close> would be a call that never returns.
\<close>

definition storeContext ::
  "(jsstring list \<Rightarrow> error + 'e list) \<Rightarrow> (nat \<Rightarrow> 'e vector list \<Rightarrow> bool) \<Rightarrow> (nat \<Rightarrow> jsstring) \<Rightarrow>
   jsstring \<Rightarrow> metadata \<Rightarrow> ('e vector list list \<times> (error + jsstring list)) option" where
  "storeContext generateEmbeddings accepts clock text metadata =
     (case chunkText text 1000 100 of
        None \<Rightarrow> None
      | Some chunks \<Rightarrow>
          (case generateEmbeddings chunks of
             Inl e \<Rightarrow> Some ([], Inl e)
           | Inr embeddings \<Rightarrow>
               (let vectors = assembleVectors clock chunks embeddings metadata
                in case upsertBatches accepts vectors 0 [] of
                     (calls, Some e) \<Rightarrow> Some (calls, Inl e)
                   | (calls, None) \<Rightarrow> Some (calls, Inr (map vec_id vectors)))))"


section \<open>The search pipeline (src/context.js)\<close>

record ('e, 'f) query_request =
  q_vector :: 'e
  q_topK :: int
  q_filter :: "(jsstring \<times> 'f) list option"
  q_includeMetadata :: bool

record 's match =
  match_id :: jsstring
  match_score :: 's
  match_metadata :: "metadata option"

record 's search_result =
  res_id :: jsstring
  res_score :: 's
  res_text :: "jsval option"
  res_metadata :: "metadata option"

definition objectKeys :: "('k \<times> 'v) list \<Rightarrow> 'k list" where
  "objectKeys obj = map fst obj"

text \<open>The object \<open>index.query\<close> is called with.\<close>

definition queryRequest :: "'e \<Rightarrow> (jsstring \<times> 'f) list \<Rightarrow> int \<Rightarrow> ('e, 'f) query_request" where
  "queryRequest queryEmbedding filter' topK =
     \<lparr> q_vector = queryEmbedding,
       q_topK = topK,
       q_filter = (if length (objectKeys filter') > 0 then Some filter' else None),
       q_includeMetadata = True \<rparr>"

definition toResult :: "'s match \<Rightarrow> 's search_result" where
  "toResult m =
     \<lparr> res_id = match_id m,
       res_score = match_score m,
       res_text = (case match_metadata m of None \<Rightarrow> None | Some md \<Rightarrow> map_of md (str ''text'')),
       res_metadata = match_metadata m \<rparr>"

definition searchContext ::
  "(jsstring \<Rightarrow> error + 'e) \<Rightarrow> (('e, 'f) query_request \<Rightarrow> error + 's match list) \<Rightarrow>
   jsstring \<Rightarrow> (jsstring \<times> 'f) list \<Rightarrow> int \<Rightarrow> error + 's search_result list" where
  "searchContext generateEmbedding indexQuery query filter' topK =
     (case generateEmbedding query of
        Inl e \<Rightarrow> Inl e
      | Inr queryEmbedding \<Rightarrow>
          (case indexQuery (queryRequest queryEmbedding filter' topK) of
             Inl e \<Rightarrow> Inl e
           | Inr matches \<Rightarrow> Inr (map toResult matches)))"


section \<open>Grouping and formatting (src/context.js)\<close>

datatype filter_value = FEq jsstring | FIn "jsstring list"

text \<open>
  \<open>if (project) filter.project = project;
  if (types && types.length > 0) filter.type = { $in: types }\<close>.
\<close>

definition buildFilter ::
  "jsstring option \<Rightarrow> jsstring list option \<Rightarrow> (jsstring \<times> filter_value) list" where
  "buildFilter project types =
     (let filter0 = [];
          filter1 = (case project of
                       Some p \<Rightarrow> if p \<noteq> [] then AList.update (str ''project'') (FEq p) filter0
                                else filter0
                     | None \<Rightarrow> filter0)
      in case types of
           Some ts \<Rightarrow> if length ts > 0 then AList.update (str ''type'') (FIn ts) filter1
                      else filter1
         | None \<Rightarrow> filter1)"

record 's grouped =
  g_conversation :: "'s search_result list"
  g_code :: "'s search_result list"
  g_documentation :: "'s search_result list"
  g_other :: "'s search_result list"

definition emptyGrouped :: "'s grouped" where
  "emptyGrouped = \<lparr> g_conversation = [], g_code = [], g_documentation = [], g_other = [] \<rparr>"

text \<open>\<open>result.metadata?.type || 'other'\<close>.\<close>

definition resultType :: "'s search_result \<Rightarrow> jsval option" where
  "resultType result =
     (let t = (case res_metadata result of None \<Rightarrow> None | Some md \<Rightarrow> map_of md (str ''type''))
      in if truthy t then t else Some (JStr (str ''other'')))"

text \<open>
  \<open>grouped\<close> is an object literal, so \<open>grouped[type]\<close> also finds what it inherits from
  \<open>Object.prototype\<close>: these are the names of the properties of \<open>Object.prototype\<close>.
  Each of them holds a function or an object, which is truthy and has no \<open>push\<close>.
\<close>

definition objectPrototypeKeys :: "jsstring list" where
  "objectPrototypeKeys =
     [str ''constructor'', str ''__defineGetter__'', str ''__defineSetter__'',
      str ''hasOwnProperty'', str ''__lookupGetter__'', str ''__lookupSetter__'',
      str ''isPrototypeOf'', str ''propertyIsEnumerable'', str ''toString'',
      str ''valueOf'', str ''__proto__'', str ''toLocaleString'']"

text \<open>
  \<open>for (const result of results) { if (grouped[type]) grouped[type].push(result);
  else grouped.other.push(result); }\<close>
\<close>

fun groupResults :: "'s search_result list \<Rightarrow> 's grouped \<Rightarrow> error + 's grouped" where
  "groupResults [] grouped = Inr grouped"
| "groupResults (result # results) grouped =
     (let key = jsToString (resultType result)
      in if key = str ''conversation''
         then groupResults results (grouped\<lparr>g_conversation := g_conversation grouped @ [result]\<rparr>)
         else if key = str ''code''
         then groupResults results (grouped\<lparr>g_code := g_code grouped @ [result]\<rparr>)
         else if key = str ''documentation''
         then groupResults results (grouped\<lparr>g_documentation := g_documentation grouped @ [result]\<rparr>)
         else if key = str ''other''
         then groupResults results (grouped\<lparr>g_other := g_other grouped @ [result]\<rparr>)
         else if key \<in> set objectPrototypeKeys
         then Inl TypeError
         else groupResults results (grouped\<lparr>g_other := g_other grouped @ [result]\<rparr>))"

text \<open>\<open>formatContextForPrompt(results)\<close>; a template literal renders a value with \<open>ToString\<close>.\<close>

definition formatSection :: "'s search_result \<Rightarrow> jsstring" where
  "formatSection r =
     (let meta = (case res_metadata r of None \<Rightarrow> [] | Some md \<Rightarrow> md);
          header =
            (if map_of meta (str ''type'') = Some (JStr (str ''code''))
             then str ''[Code: '' @ jsToString (map_of meta (str ''filePath'')) @ str '']''
             else if map_of meta (str ''type'') = Some (JStr (str ''conversation''))
             then str ''['' @ jsToString (map_of meta (str ''role'')) @ str '']''
             else if map_of meta (str ''type'') = Some (JStr (str ''documentation''))
             then str ''[Doc: '' @ jsToString (map_of meta (str ''title'')) @ str '']''
             else str ''[Context]'')
      in header @ str ''\<newline>'' @ jsToString (res_text r))"

definition formatContextForPrompt :: "'s search_result list \<Rightarrow> jsstring" where
  "formatContextForPrompt results =
     (if length results = 0 then []
      else intercalate (str ''\<newline>\<newline>---\<newline>\<newline>'') (map formatSection results))"

record 's relevant_context =
  ctx_all :: "'s search_result list"
  ctx_grouped :: "'s grouped"
  ctx_contextString :: jsstring

definition getRelevantContext ::
  "(jsstring \<Rightarrow> error + 'e) \<Rightarrow> (('e, filter_value) query_request \<Rightarrow> error + 's match list) \<Rightarrow>
   jsstring \<Rightarrow> jsstring option \<Rightarrow> jsstring list option \<Rightarrow> int \<Rightarrow> error + 's relevant_context" where
  "getRelevantContext generateEmbedding indexQuery query project types topK =
     (case searchContext generateEmbedding indexQuery query (buildFilter project types) topK of
        Inl e \<Rightarrow> Inl e
      | Inr results \<Rightarrow>
          (case groupResults results emptyGrouped of
             Inl e \<Rightarrow> Inl e
           | Inr grouped \<Rightarrow>
               Inr \<lparr> ctx_all = results, ctx_grouped = grouped,
                     ctx_contextString = formatContextForPrompt results \<rparr>))"


section \<open>The caches of the MCP server\<close>

text \<open>
  A \<open>Map\<close> keeps its entries in insertion order: \<open>set\<close> on a key that is present
  replaces the value where it stands, \<open>set\<close> on a new key appends, and
  \<open>cache.keys().next().value\<close> is the key inserted first. \<open>Date.now()\<close> is the
  parameter \<open>now\<close>, in milliseconds.
\<close>

record 'v cache_entry =
  entry_value :: 'v
  expiresAt :: int

type_synonym ('k, 'v) cache = "('k \<times> 'v cache_entry) list"

definition CACHE_TTL :: int where
  "CACHE_TTL = 300000"

text \<open>
  \<open>getCached(cache, key)\<close>: the value returned (\<open>None\<close> for \<open>null\<close>) and the cache
  as the call leaves it.
\<close>

definition getCached :: "('k, 'v) cache \<Rightarrow> 'k \<Rightarrow> int \<Rightarrow> 'v option \<times> ('k, 'v) cache" where
  "getCached cache key now =
     (case map_of cache key of
        None \<Rightarrow> (None, cache)
      | Some item \<Rightarrow>
          if now > expiresAt item then (None, AList.delete key cache)
          else (Some (entry_value item), cache))"

definition setCache :: "('k, 'v) cache \<Rightarrow> 'k \<Rightarrow> 'v \<Rightarrow> int \<Rightarrow> ('k, 'v) cache" where
  "setCache cache key v now =
     (let cache1 =
            (if length cache > 100
             then (case cache of [] \<Rightarrow> cache | (firstKey, item) # rest \<Rightarrow> AList.delete firstKey cache)
             else cache)
      in AList.update key \<lparr> entry_value = v, expiresAt = now + CACHE_TTL \<rparr> cache1)"

text \<open>
  The cached \<open>generateEmbedding(text)\<close> of the server: \<open>now1\<close> is the clock at the
  lookup, \<open>now2\<close> the clock when the provider has answered. An embedding is an array,
  which is truthy, so \<open>if (cached) return cached\<close> returns every value that was found.
\<close>

definition generateEmbeddingCached ::
  "(jsstring \<Rightarrow> error + 'e) \<Rightarrow> int \<Rightarrow> int \<Rightarrow> (jsstring, 'e) cache \<Rightarrow> jsstring \<Rightarrow>
   (error + 'e) \<times> (jsstring, 'e) cache" where
  "generateEmbeddingCached provider now1 now2 embeddingCache text =
     (case getCached embeddingCache text now1 of
        (Some cached, cache1) \<Rightarrow> (Inr cached, cache1)
      | (None, cache1) \<Rightarrow>
          (case provider text of
             Inl e \<Rightarrow> (Inl e, cache1)
           | Inr embedding \<Rightarrow> (Inr embedding, setCache cache1 text embedding now2)))"


section \<open>Storing through the MCP server\<close>

text \<open>
  \<open>indexText(text, project, type, metadata)\<close>. The id is
  \<open>`ctx_${Date.now()}_${Math.random().toString(36).slice(2, 10)}`\<close>: \<open>now\<close> is the
  clock in milliseconds (a safe integer) and \<open>random36\<close> is the string \<open>Math.random().toString(36)\<close>,
  such as \<open>0.i\<close> or \<open>0.k3j9x0abcde\<close>, of which \<open>slice(2, 10)\<close> keeps up to eight
  characters behind the point.
\<close>

definition indexTextId :: "nat \<Rightarrow> jsstring \<Rightarrow> jsstring" where
  "indexTextId now random36 = str ''ctx_'' @ decNat now @ str ''_'' @ js_slice random36 2 10"







section \<open>Properties of the chunker\<close>

lemma chunkLoop_step:
  "start < int (length text) \<Longrightarrow>
   chunkLoop text m ov start chunks =
   chunkLoop text m ov (chunkEnd text m start - ov)
     (chunks @ [trim (js_slice text start (chunkEnd text m start))])"
  by (subst chunkLoop.simps) simp

lemma chunkLoop_exit:
  "\<not> start < int (length text) \<Longrightarrow> chunkLoop text m ov start chunks = Some chunks"
  by (subst chunkLoop.simps) simp

lemma trim_replicate:
  "\<not> isWhiteSpace c \<Longrightarrow> trim (replicate n c) = replicate n c"
  by (simp add: trim_def dropWhile_replicate)

lemma not_isWhiteSpace_a: "\<not> isWhiteSpace 0x61"
  by (simp add: isWhiteSpace_def)

text \<open>
  C1. A text no longer than \<open>maxChunkSize\<close> is claimed to give the single chunk
  \<open>[text.trim()]\<close>. With the default parameters (1000, 100) a text of 950 letters
  \<open>a\<close> gives two chunks: the whole text, and then its last 50 letters once more,
  because after the first chunk \<open>start = 1000 - 100 = 900\<close> is still below the
  length 950.
\<close>

theorem chunkText_950_gives_two_chunks:
  "chunkText (replicate 950 0x61) 1000 100 = Some [replicate 950 0x61, replicate 50 0x61]"
  by (simp add: chunkText_def chunkLoop_step chunkLoop_exit chunkEnd_def js_slice_def
      trim_replicate not_isWhiteSpace_a)

text \<open>
  Where the claim of C1 does hold: when the text is no longer than
  \<open>maxChunkSize - overlap\<close>, the loop runs at most once.
\<close>

lemma chunkText_short:
  assumes "0 \<le> overlap" and "int (length text) \<le> maxChunkSize - overlap"
  shows "chunkText text maxChunkSize overlap =
         Some (if trim text = [] then [] else [trim text])"
proof (cases "text = []")
  case True
  then show ?thesis
    by (simp add: chunkText_def chunkLoop_exit trim_def)
next
  case False
  then have pos: "0 < int (length text)" by simp
  from assms pos have e: "chunkEnd text maxChunkSize 0 = maxChunkSize"
    by (simp add: chunkEnd_def)
  from assms pos have sl: "js_slice text 0 maxChunkSize = text"
    by (simp add: js_slice_def)
  from assms have ex: "\<not> maxChunkSize - overlap < int (length text)" by simp
  show ?thesis
    by (simp add: chunkText_def chunkLoop_step [OF pos] e sl chunkLoop_exit [OF ex])
qed

subsection \<open>Progress of the loop\<close>











section \<open>Properties of the decimal rendering\<close>

lemma unat_digit: "n < 10 \<Longrightarrow> unat (digit n) = 48 + n"
  unfolding digit_def by (simp only: unat_of_nat) simp

lemma digit_inj:
  assumes "a < 10" "b < 10" "digit a = digit b"
  shows "a = b"
proof -
  from assms(3) have "unat (digit a) = unat (digit b)" by (rule arg_cong)
  with assms(1,2) show ?thesis by (simp add: unat_digit)
qed

lemma decNat_nonempty: "decNat n \<noteq> []"
  by (subst decNat.simps) simp


lemma decNat_inj: "decNat n = decNat m \<Longrightarrow> n = m"
proof (induction n arbitrary: m rule: decNat.induct)
  case (1 n)
  show ?case
  proof (cases "n < 10")
    case n: True
    show ?thesis
    proof (cases "m < 10")
      case True
      with n "1.prems" show ?thesis
        by (simp add: decNat.simps [of n] decNat.simps [of m] digit_inj)
    next
      case False
      with n "1.prems" decNat_nonempty [of "m div 10"] show ?thesis
        by (simp add: decNat.simps [of n] decNat.simps [of m])
    qed
  next
    case n: False
    show ?thesis
    proof (cases "m < 10")
      case True
      with n "1.prems" decNat_nonempty [of "n div 10"] show ?thesis
        by (simp add: decNat.simps [of n] decNat.simps [of m])
    next
      case False
      with n "1.prems" have a: "decNat (n div 10) = decNat (m div 10)"
        and b: "digit (n mod 10) = digit (m mod 10)"
        by (simp_all add: decNat.simps [of n] decNat.simps [of m])
      from "1.IH" [OF n a] have "n div 10 = m div 10" .
      moreover from b have "n mod 10 = m mod 10" by (simp add: digit_inj)
      ultimately show ?thesis by (metis div_mult_mod_eq)
    qed
  qed
qed



section \<open>Properties of the caches\<close>

lemma update_fresh:
  "k \<notin> fst ` set al \<Longrightarrow> AList.update k v al = al @ [(k, v)]"
  by (induction al) auto

lemma setCache_fresh:
  "length cache \<le> 100 \<Longrightarrow> key \<notin> fst ` set cache \<Longrightarrow>
   setCache cache key v now = cache @ [(key, \<lparr> entry_value = v, expiresAt = now + CACHE_TTL \<rparr>)]"
  by (simp add: setCache_def update_fresh)

lemma fold_setCache_fresh:
  "distinct keys \<Longrightarrow> set keys \<inter> fst ` set cache = {} \<Longrightarrow> length cache + length keys \<le> 101 \<Longrightarrow>
   fold (\<lambda>k c. setCache c k (v k) (now k)) keys cache =
   cache @ map (\<lambda>k. (k, \<lparr> entry_value = v k, expiresAt = now k + CACHE_TTL \<rparr>)) keys"
proof (induction keys arbitrary: cache)
  case Nil
  then show ?case by simp
next
  case (Cons k keys)
  from Cons.prems have fresh: "k \<notin> fst ` set cache" and small: "length cache \<le> 100" by auto
  let ?c = "cache @ [(k, \<lparr> entry_value = v k, expiresAt = now k + CACHE_TTL \<rparr>)]"
  have "fold (\<lambda>k c. setCache c k (v k) (now k)) keys ?c =
        ?c @ map (\<lambda>k. (k, \<lparr> entry_value = v k, expiresAt = now k + CACHE_TTL \<rparr>)) keys"
    using Cons.prems by (intro Cons.IH) auto
  then show ?case by (simp add: setCache_fresh [OF small fresh])
qed

text \<open>
  C2. The cache is claimed never to hold more than 100 entries. \<open>setCache\<close> evicts
  only when \<open>cache.size > 100\<close>, so the 101st distinct key (here the keys 1 to 101,
  with any values, inserted at any times) is stored with nothing evicted: all 101
  entries are there, the first one included.
\<close>

theorem cache_holds_101_entries:
  "fold (\<lambda>k cache. setCache cache k (v k) (now k)) [1..<102] [] =
     map (\<lambda>k. (k, \<lparr> entry_value = v k, expiresAt = now k + CACHE_TTL \<rparr>)) [1..<102]
   \<and> length (fold (\<lambda>k cache. setCache cache k (v k) (now k)) [1..<102] []) = 101"
  using fold_setCache_fresh [of "[1..<102]" "[]" v now] by simp

text \<open>
  Eviction starts one key later: with 101 entries in the cache, storing a new key
  deletes the entry that was inserted first, and 101 entries remain.
\<close>

lemma delete_first_key:
  "k \<notin> set ks \<Longrightarrow>
   AList.delete k ((k, e) # map (\<lambda>k. (k, f k)) ks) = map (\<lambda>k. (k, f k)) ks"
  by (induction ks) (auto simp: AList.delete_eq)

lemma fold_setCache_evicts:
  assumes "distinct (k0 # ks)" and "length ks = 100" and "k \<notin> set (k0 # ks)"
  shows "fold (\<lambda>k c. setCache c k (v k) (now k)) ((k0 # ks) @ [k]) [] =
         map (\<lambda>k. (k, \<lparr> entry_value = v k, expiresAt = now k + CACHE_TTL \<rparr>)) (ks @ [k])"
proof -
  let ?e = "\<lambda>k. \<lparr> entry_value = v k, expiresAt = now k + CACHE_TTL \<rparr>"
  let ?F = "\<lambda>k c. setCache c k (v k) (now k)"
  have full: "fold ?F (k0 # ks) [] = (k0, ?e k0) # map (\<lambda>k. (k, ?e k)) ks"
    using fold_setCache_fresh [of "k0 # ks" "[]" v now] assms by simp
  from assms have del: "AList.delete k0 ((k0, ?e k0) # map (\<lambda>k. (k, ?e k)) ks) =
      map (\<lambda>k. (k, ?e k)) ks"
    by (intro delete_first_key) simp
  from assms have fresh: "k \<notin> fst ` set (map (\<lambda>k. (k, ?e k)) ks)" by auto
  have sc: "setCache ((k0, ?e k0) # map (\<lambda>k. (k, ?e k)) ks) k (v k) (now k) =
        map (\<lambda>k. (k, ?e k)) ks @ [(k, ?e k)]"
    unfolding setCache_def using del update_fresh [OF fresh] assms(2) by (simp add: Let_def)
  have "fold ?F ((k0 # ks) @ [k]) [] = setCache (fold ?F (k0 # ks) []) k (v k) (now k)"
    unfolding fold_append by simp
  also have "\<dots> = map (\<lambda>k. (k, ?e k)) ks @ [(k, ?e k)]"
    unfolding full by (rule sc)
  finally show ?thesis by simp
qed

lemma map_of_setCache:
  "map_of (setCache cache key v T) key = Some \<lparr> entry_value = v, expiresAt = T + CACHE_TTL \<rparr>"
  by (simp add: setCache_def update_conv' Let_def)

lemma getCached_present:
  assumes "map_of cache key = Some \<lparr> entry_value = v, expiresAt = e \<rparr>"
  shows "getCached cache key now =
         (if now > e then (None, AList.delete key cache) else (Some v, cache))"
  using assms by (simp add: getCached_def)

lemma map_of_delete_same: "map_of (AList.delete key al) key = None"
  by (simp add: delete_conv')

lemma setCache_empty:
  "setCache [] key v T = [(key, \<lparr> entry_value = v, expiresAt = T + CACHE_TTL \<rparr>)]"
  by (simp add: setCache_def)

lemma generateEmbeddingCached_hit:
  assumes "map_of cache text = Some \<lparr> entry_value = v, expiresAt = e \<rparr>" and "now1 \<le> e"
  shows "generateEmbeddingCached provider now1 now2 cache text = (Inr v, cache)"
  using assms by (simp add: generateEmbeddingCached_def getCached_present)

lemma generateEmbeddingCached_miss:
  assumes "map_of cache text = Some \<lparr> entry_value = v, expiresAt = e \<rparr>" and "e < now1"
  shows "generateEmbeddingCached provider now1 now2 cache text =
         (case provider text of
            Inl err \<Rightarrow> (Inl err, AList.delete text cache)
          | Inr embedding \<Rightarrow>
              (Inr embedding, setCache (AList.delete text cache) text embedding now2))"
  using assms by (simp add: generateEmbeddingCached_def getCached_present split: sum.splits)

lemma map_of_fresh_key:
  "k \<notin> set ks \<Longrightarrow> map_of (map (\<lambda>k. (k, f k)) ks) k = None"
  by (induction ks) auto

lemma decNat_distinct: "distinct ns \<Longrightarrow> distinct (map decNat ns)"
  by (simp add: distinct_map inj_on_def decNat_inj)

lemma decNat_fresh: "n \<notin> set ns \<Longrightarrow> decNat n \<notin> set (map decNat ns)"
  using decNat_inj by auto

text \<open>
  C6 as stated fails: an entry need not live until its time to live is over. The
  embedding of the query \<open>1\<close> is stored at time 0, and so are then the embeddings of the
  101 queries \<open>2\<close> to \<open>102\<close>; the last of these insertions finds 101 entries in the
  cache and deletes the oldest one, so the lookup of the query \<open>1\<close> at time 1 is a miss,
  although a lookup right after its insertion finds it.
\<close>

theorem cache_entry_evicted_before_ttl:
  "fst (getCached (setCache [] (decNat 1) [7 :: nat] 0) (decNat 1) 1) = Some [7] \<and>
   fst (getCached
          (fold (\<lambda>query cache. setCache cache query [7 :: nat] 0) (map decNat [1 ..< 103]) [])
          (decNat 1) 1) = None"
proof -
  have "map_of (setCache [] (decNat 1) [7 :: nat] 0) (decNat 1) =
        Some \<lparr> entry_value = [7], expiresAt = 0 + CACHE_TTL \<rparr>"
    by (rule map_of_setCache)
  then have 1: "fst (getCached (setCache [] (decNat 1) [7 :: nat] 0) (decNat 1) 1) = Some [7]"
    by (simp add: getCached_def CACHE_TTL_def)
  define ks :: "nat list" where "ks = [2 ..< 102]"
  have ks: "distinct (1 # ks)" "length ks = 100" "102 \<notin> set (1 # ks)" "1 \<notin> set (ks @ [102])"
    by (simp_all add: ks_def)
  have "[1 ..< 103] = (1 # ks) @ [102]"
    unfolding ks_def by code_simp
  then have keys: "map decNat [1 ..< 103] = (decNat 1 # map decNat ks) @ [decNat 102]"
    by simp
  have d: "distinct (decNat 1 # map decNat ks)"
    using decNat_distinct [OF ks(1)] by simp
  have f: "decNat 102 \<notin> set (decNat 1 # map decNat ks)"
    using decNat_fresh [OF ks(3)] by simp
  have f1: "decNat 1 \<notin> set (map decNat ks @ [decNat 102])"
    using decNat_fresh [OF ks(4)] by simp
  have evicted: "fold (\<lambda>query cache. setCache cache query [7 :: nat] 0) (map decNat [1 ..< 103]) [] =
        map (\<lambda>query. (query, \<lparr> entry_value = [7], expiresAt = 0 + CACHE_TTL \<rparr>))
          (map decNat ks @ [decNat 102])"
    unfolding keys by (rule fold_setCache_evicts [OF d _ f]) (simp add: ks(2))
  have absent: "map_of (map (\<lambda>query. (query, \<lparr> entry_value = [7 :: nat], expiresAt = 0 + CACHE_TTL \<rparr>))
          (map decNat ks @ [decNat 102])) (decNat 1) = None"
    by (rule map_of_fresh_key [OF f1])
  have 2:
    "fst (getCached
          (fold (\<lambda>query cache. setCache cache query [7 :: nat] 0) (map decNat [1 ..< 103]) [])
          (decNat 1) 1) = None"
    unfolding getCached_def evicted absent by simp
  from 1 2 show ?thesis by (rule conjI)
qed

text \<open>
  C6, amended. The time to live is 300000 ms, and \<open>setCache\<close> at time \<open>T\<close> stores the
  value with the expiry time \<open>T + CACHE_TTL\<close>. As long as the key holds that entry (it
  has been neither evicted nor overwritten), a lookup at \<open>T + \<epsilon>\<close> with
  \<open>\<epsilon> \<le> CACHE_TTL\<close> returns the value and leaves the cache as it is, and the cached
  \<open>generateEmbedding\<close> returns it without asking the provider; a lookup at
  \<open>T + CACHE_TTL + \<epsilon>\<close> with \<open>\<epsilon> > 0\<close> returns \<open>null\<close> and deletes the entry, and the
  cached \<open>generateEmbedding\<close> then asks the provider and stores the answer, if there is
  one, with the expiry time of the moment.
\<close>

theorem cache_ttl:
  assumes "map_of cache key = Some \<lparr> entry_value = v, expiresAt = T + CACHE_TTL \<rparr>"
  shows "CACHE_TTL = 300000 \<and>
   map_of (setCache cache0 key v T) key = Some \<lparr> entry_value = v, expiresAt = T + CACHE_TTL \<rparr> \<and>
   (\<epsilon> \<le> CACHE_TTL \<longrightarrow>
      getCached cache key (T + \<epsilon>) = (Some v, cache) \<and>
      generateEmbeddingCached provider (T + \<epsilon>) now2 cache key = (Inr v, cache)) \<and>
   (0 < \<epsilon> \<longrightarrow>
      getCached cache key (T + CACHE_TTL + \<epsilon>) = (None, AList.delete key cache) \<and>
      map_of (AList.delete key cache) key = None \<and>
      generateEmbeddingCached provider (T + CACHE_TTL + \<epsilon>) now2 cache key =
        (case provider key of
           Inl err \<Rightarrow> (Inl err, AList.delete key cache)
         | Inr embedding \<Rightarrow>
             (Inr embedding, setCache (AList.delete key cache) key embedding now2)))"
proof -
  have 1: "CACHE_TTL = 300000" by (simp add: CACHE_TTL_def)
  have 2: "map_of (setCache cache0 key v T) key =
           Some \<lparr> entry_value = v, expiresAt = T + CACHE_TTL \<rparr>"
    by (rule map_of_setCache)
  have 3: "getCached cache key (T + \<epsilon>) = (Some v, cache)" if "\<epsilon> \<le> CACHE_TTL"
    using that by (simp add: getCached_present [OF assms])
  have 4: "generateEmbeddingCached provider (T + \<epsilon>) now2 cache key = (Inr v, cache)"
    if "\<epsilon> \<le> CACHE_TTL"
    using that by (intro generateEmbeddingCached_hit [OF assms]) simp
  have 5: "getCached cache key (T + CACHE_TTL + \<epsilon>) = (None, AList.delete key cache)" if "0 < \<epsilon>"
    using that by (simp add: getCached_present [OF assms])
  have 6: "generateEmbeddingCached provider (T + CACHE_TTL + \<epsilon>) now2 cache key =
        (case provider key of
           Inl err \<Rightarrow> (Inl err, AList.delete key cache)
         | Inr embedding \<Rightarrow>
             (Inr embedding, setCache (AList.delete key cache) key embedding now2))"
    if "0 < \<epsilon>"
    using that by (intro generateEmbeddingCached_miss [OF assms]) simp
  from 1 2 3 4 5 6 show ?thesis by (simp only: map_of_delete_same) simp
qed

text \<open>
  The query \<open>q\<close> is embedded as \<open>[7]\<close> at time 1000. At 1000 + 299999 the cached
  \<open>generateEmbedding\<close> still answers \<open>[7]\<close>, whatever the provider would say; at
  1000 + 300001 the entry is deleted, the provider is asked, and its answer \<open>[8]\<close> is
  stored at the time 1300500 of its arrival.
\<close>

theorem cache_ttl_witness:
  "getCached (setCache [] (str ''q'') [7 :: nat] 1000) (str ''q'') (1000 + 299999) =
      (Some [7], setCache [] (str ''q'') [7] 1000) \<and>
   generateEmbeddingCached (\<lambda>t. Inr [8]) (1000 + 299999) 1300500
      (setCache [] (str ''q'') [7 :: nat] 1000) (str ''q'') =
      (Inr [7], setCache [] (str ''q'') [7] 1000) \<and>
   getCached (setCache [] (str ''q'') [7 :: nat] 1000) (str ''q'') (1000 + CACHE_TTL + 1) = (None, []) \<and>
   generateEmbeddingCached (\<lambda>t. Inr [8]) (1000 + CACHE_TTL + 1) 1300500
      (setCache [] (str ''q'') [7 :: nat] 1000) (str ''q'') =
      (Inr [8], setCache [] (str ''q'') [8] 1300500)"
proof -
  let ?c = "setCache [] (str ''q'') [7 :: nat] 1000"
  have h: "map_of ?c (str ''q'') = Some \<lparr> entry_value = [7], expiresAt = 1000 + CACHE_TTL \<rparr>"
    by (rule map_of_setCache)
  have a: "(299999 :: int) \<le> CACHE_TTL" and b: "(0 :: int) < 1" by (simp_all add: CACHE_TTL_def)
  note t1 = cache_ttl [OF h, where \<epsilon> = 299999 and provider = "\<lambda>t. Inr [8]" and ?now2.0 = 1300500]
  note t2 = cache_ttl [OF h, where \<epsilon> = 1 and provider = "\<lambda>t. Inr [8]" and ?now2.0 = 1300500]
  from t1 a have 1: "getCached ?c (str ''q'') (1000 + 299999) = (Some [7], ?c)"
    and 2: "generateEmbeddingCached (\<lambda>t. Inr [8]) (1000 + 299999) 1300500 ?c (str ''q'') =
            (Inr [7], ?c)"
    by blast+
  from t2 b have 3: "getCached ?c (str ''q'') (1000 + CACHE_TTL + 1) =
      (None, AList.delete (str ''q'') ?c)"
    and 4: "generateEmbeddingCached (\<lambda>t. Inr [8]) (1000 + CACHE_TTL + 1) 1300500 ?c (str ''q'') =
      (case (Inr [8] :: error + nat list) of
         Inl err \<Rightarrow> (Inl err, AList.delete (str ''q'') ?c)
       | Inr embedding \<Rightarrow>
           (Inr embedding, setCache (AList.delete (str ''q'') ?c) (str ''q'') embedding 1300500))"
    by blast+
  have 5: "AList.delete (str ''q'') ?c = []"
    by (simp add: setCache_empty)
  from 1 2 3 4 show ?thesis unfolding 5 by simp
qed

section \<open>Properties of the search pipeline\<close>

text \<open>
  C10. With the empty filter object, \<open>searchContext\<close> calls \<open>index.query\<close> with
  \<open>filter: undefined\<close>; a filter with at least one key is passed on as it is. In both
  cases the query is made only once the embedding of the query text has been obtained.
\<close>

theorem searchContext_filter:
  "searchContext generateEmbedding indexQuery query [] topK =
     (case generateEmbedding query of
        Inl e \<Rightarrow> Inl e
      | Inr v \<Rightarrow>
          (case indexQuery \<lparr> q_vector = v, q_topK = topK, q_filter = None, q_includeMetadata = True \<rparr> of
             Inl e \<Rightarrow> Inl e
           | Inr matches \<Rightarrow> Inr (map toResult matches))) \<and>
   (filter' \<noteq> [] \<longrightarrow>
    searchContext generateEmbedding indexQuery query filter' topK =
     (case generateEmbedding query of
        Inl e \<Rightarrow> Inl e
      | Inr v \<Rightarrow>
          (case indexQuery \<lparr> q_vector = v, q_topK = topK, q_filter = Some filter', q_includeMetadata = True \<rparr> of
             Inl e \<Rightarrow> Inl e
           | Inr matches \<Rightarrow> Inr (map toResult matches))))"
  by (simp add: searchContext_def queryRequest_def objectKeys_def split: sum.splits)

text \<open>
  A stub index that answers with the filter it was given as the id of its one match.
\<close>

theorem searchContext_filter_witness:
  "searchContext (\<lambda>q. Inr (1 :: nat))
     (\<lambda>r. Inr [\<lparr> match_id = (case q_filter r of None \<Rightarrow> str ''unfiltered''
                                | Some f \<Rightarrow> str ''filtered by '' @ concat (map fst f)),
                   match_score = (5 :: nat), match_metadata = None \<rparr>])
     (str ''how to handle errors'') [(str ''project'', FEq (str ''p''))] 5 =
   Inr [\<lparr> res_id = str ''filtered by project'', res_score = 5, res_text = None,
           res_metadata = None \<rparr>]"
  using searchContext_filter [of "\<lambda>q. Inr (1 :: nat)"
     "\<lambda>r. Inr [\<lparr> match_id = (case q_filter r of None \<Rightarrow> str ''unfiltered''
                                | Some f \<Rightarrow> str ''filtered by '' @ concat (map fst f)),
                   match_score = (5 :: nat), match_metadata = None \<rparr>]"
     "str ''how to handle errors''" 5 "[(str ''project'', FEq (str ''p''))]"]
  by (simp add: toResult_def str_def)

section \<open>Properties of the store pipeline\<close>

lemma js_slice_nat: "js_slice xs (int i) (int j) = take (j - i) (drop i xs)"
proof (cases "i < length xs")
  case True
  then show ?thesis
    by (cases "j \<le> length xs") (simp_all add: js_slice_def min_def nat_diff_distrib')
next
  case False
  then show ?thesis by (simp add: js_slice_def min_def)
qed

lemma blocksOf_Nil [simp]: "blocksOf n [] = []"
  by (simp add: blocksOf.simps)

lemma blocksOf_Cons: "0 < n \<Longrightarrow> xs \<noteq> [] \<Longrightarrow> blocksOf n xs = take n xs # blocksOf n (drop n xs)"
  by (subst blocksOf.simps) simp




lemma upsertBatches_accepted:
  assumes "\<And>n b. accepts n b"
  shows "upsertBatches accepts vectors i calls = (calls @ blocksOf batchSize (drop i vectors), None)"
  using assms
proof (induction accepts vectors i calls rule: upsertBatches.induct)
  case (1 accepts vectors i calls)
  show ?case
  proof (cases "i < length vectors")
    case True
    let ?batch = "js_slice vectors (int i) (int (i + batchSize))"
    have b: "?batch = take batchSize (drop i vectors)"
      using js_slice_nat [of vectors i "i + batchSize"] by simp
    have acc: "accepts (length calls) ?batch" by (rule "1.prems")
    have IH: "upsertBatches accepts vectors (i + batchSize) (calls @ [?batch]) =
              ((calls @ [?batch]) @ blocksOf batchSize (drop (i + batchSize) vectors), None)"
      by (rule "1.IH" [OF True refl acc "1.prems"])
    from True have ne: "drop i vectors \<noteq> []" by simp
    have pos: "0 < batchSize" by (simp add: batchSize_def)
    have unfold: "upsertBatches accepts vectors i calls =
                  upsertBatches accepts vectors (i + batchSize) (calls @ [?batch])"
      using True acc by (subst upsertBatches.simps) (simp add: Let_def)
    have "blocksOf batchSize (drop i vectors) =
          take batchSize (drop i vectors) # blocksOf batchSize (drop (i + batchSize) vectors)"
      using blocksOf_Cons [OF pos ne] by (simp add: add.commute)
    with unfold IH b show ?thesis by simp
  next
    case False
    then show ?thesis by (subst upsertBatches.simps) simp
  qed
qed




subsection \<open>Texts of one repeated letter\<close>

lemma no_occurrence_replicate:
  assumes "bp \<noteq> []" "hd bp \<noteq> c"
  shows "take k (drop j (replicate n c)) \<noteq> bp"
proof
  assume eq: "take k (drop j (replicate n c)) = bp"
  have "set (take k (drop j (replicate n c))) \<subseteq> {c}"
    by (auto dest!: in_set_takeD in_set_dropD)
  with eq have "set bp \<subseteq> {c}" by simp
  with assms show False by (cases bp) auto
qed

lemma lastIndexFrom_replicate:
  "bp \<noteq> [] \<Longrightarrow> hd bp \<noteq> c \<Longrightarrow> lastIndexFrom (replicate n c) bp k = - 1"
proof (induction k)
  case 0
  with no_occurrence_replicate [of bp c "length bp" 0 n] show ?case by simp
next
  case (Suc k)
  with no_occurrence_replicate [of bp c "length bp" "Suc k" n] show ?case by simp
qed

lemma lastIndexOf_replicate:
  "bp \<noteq> [] \<Longrightarrow> hd bp \<noteq> c \<Longrightarrow> lastIndexOf (replicate n c) bp e = - 1"
  by (simp add: lastIndexOf_def lastIndexFrom_replicate)

lemma findBreak_replicate_a:
  "0 \<le> start \<Longrightarrow> 0 \<le> m \<Longrightarrow> findBreak (replicate n 0x61) start m e breakPoints = e"
  by (simp add: breakPoints_def str_def lastIndexOf_replicate Let_def)

lemma chunkEnd_replicate_a:
  "0 \<le> start \<Longrightarrow> 0 \<le> m \<Longrightarrow> chunkEnd (replicate n 0x61) m start = start + m"
  by (simp add: chunkEnd_def findBreak_replicate_a Let_def)

lemma chunkText_1500:
  "chunkText (replicate 1500 0x61) 1000 100 = Some [replicate 1000 0x61, replicate 600 0x61]"
  by (simp add: chunkText_def chunkLoop_step chunkLoop_exit chunkEnd_replicate_a js_slice_def
      trim_replicate not_isWhiteSpace_a)

lemma assembleVectors_nth:
  "i < length chunks \<Longrightarrow>
   assembleVectors clock chunks embeddings metadata ! i =
     \<lparr> vec_id = generateId (chunks ! i) (AList.update (str ''chunkIndex'') (JNum (int i)) metadata),
       vec_values = (if i < length embeddings then Some (embeddings ! i) else None),
       vec_metadata =
         AList.update (str ''timestamp'') (JStr (clock i))
           (AList.update (str ''totalChunks'') (JNum (int (length chunks)))
             (AList.update (str ''chunkIndex'') (JNum (int i))
               (AList.update (str ''text'') (JStr (chunks ! i)) metadata))) \<rparr>"
  by (simp add: assembleVectors_def nth_enumerate_eq)

lemma length_assembleVectors [simp]:
  "length (assembleVectors clock chunks embeddings metadata) = length chunks"
  by (simp add: assembleVectors_def)







subsection \<open>The batches of one call\<close>





subsection \<open>The metadata of the chunks of one call\<close>

lemma metadata_keys_distinct:
  "str ''chunkIndex'' \<noteq> str ''totalChunks''" "str ''chunkIndex'' \<noteq> str ''timestamp''"
  "str ''text'' \<noteq> str ''chunkIndex''" "str ''text'' \<noteq> str ''totalChunks''"
  "str ''text'' \<noteq> str ''timestamp''" "str ''totalChunks'' \<noteq> str ''timestamp''"
  by (simp_all add: str_def)

text \<open>
  C8, amended. In the vectors of one call every chunk has \<open>chunkIndex < totalChunks\<close>,
  its own chunk as \<open>text\<close> and the clock reading of its own assembly as
  \<open>timestamp\<close>; in every field other than \<open>chunkIndex\<close>, \<open>text\<close> and
  \<open>timestamp\<close> the metadata of any two chunks of the call agree.
\<close>

theorem storeContext_chunk_metadata:
  assumes "i < length chunks" and "j < length chunks"
  shows
    "map_of (vec_metadata (assembleVectors clock chunks embeddings metadata ! i)) (str ''chunkIndex'')
       = Some (JNum (int i)) \<and>
     map_of (vec_metadata (assembleVectors clock chunks embeddings metadata ! i)) (str ''totalChunks'')
       = Some (JNum (int (length chunks))) \<and>
     int i < int (length chunks) \<and>
     map_of (vec_metadata (assembleVectors clock chunks embeddings metadata ! i)) (str ''text'')
       = Some (JStr (chunks ! i)) \<and>
     map_of (vec_metadata (assembleVectors clock chunks embeddings metadata ! i)) (str ''timestamp'')
       = Some (JStr (clock i)) \<and>
     (\<forall>k. k \<notin> {str ''chunkIndex'', str ''text'', str ''timestamp''} \<longrightarrow>
        map_of (vec_metadata (assembleVectors clock chunks embeddings metadata ! i)) k =
        map_of (vec_metadata (assembleVectors clock chunks embeddings metadata ! j)) k)"
  using assms metadata_keys_distinct
  by (simp add: assembleVectors_nth update_conv')


theorem storeContext_chunk_metadata_witness:
  "map_of (vec_metadata (assembleVectors (\<lambda>i. str ''2024-01-01T00:00:00.000Z'')
       [str ''A. B.'', str ''C.''] [1 :: nat, 2] [(str ''project'', JStr (str ''p''))] ! 0))
     (str ''project'') =
   map_of (vec_metadata (assembleVectors (\<lambda>i. str ''2024-01-01T00:00:00.000Z'')
       [str ''A. B.'', str ''C.''] [1 :: nat, 2] [(str ''project'', JStr (str ''p''))] ! 1))
     (str ''project'') \<and>
   map_of (vec_metadata (assembleVectors (\<lambda>i. str ''2024-01-01T00:00:00.000Z'')
       [str ''A. B.'', str ''C.''] [1 :: nat, 2] [(str ''project'', JStr (str ''p''))] ! 0))
     (str ''totalChunks'') = Some (JNum 2)"
  using storeContext_chunk_metadata [of 0 "[str ''A. B.'', str ''C.'']" 1
      "\<lambda>i. str ''2024-01-01T00:00:00.000Z''" "[1 :: nat, 2]"
      "[(str ''project'', JStr (str ''p''))]"]
  by (simp add: str_def)

text \<open>
  A text of 1500 letters \<open>a\<close> is stored as two chunks, of 1000 and of 600 letters,
  upserted in one batch.
\<close>

lemma blocksOf_short: "0 < n \<Longrightarrow> xs \<noteq> [] \<Longrightarrow> length xs \<le> n \<Longrightarrow> blocksOf n xs = [xs]"
  by (subst blocksOf.simps) simp

lemma storeContext_1500:
  "storeContext (\<lambda>cs. Inr (map (\<lambda>c. 0 :: nat) cs)) (\<lambda>n b. True) clock (replicate 1500 0x61) [] =
   Some ([assembleVectors clock [replicate 1000 0x61, replicate 600 0x61] [0 :: nat, 0] []],
         Inr (map vec_id
                (assembleVectors clock [replicate 1000 0x61, replicate 600 0x61] [0 :: nat, 0] [])))"
proof -
  have "upsertBatches (\<lambda>n b. True)
          (assembleVectors clock [replicate 1000 0x61, replicate 600 0x61] [0 :: nat, 0] []) 0 [] =
        ([assembleVectors clock [replicate 1000 0x61, replicate 600 0x61] [0, 0] []], None)"
    by (simp add: upsertBatches_accepted batchSize_def blocksOf_short assembleVectors_def)
  then show ?thesis by (simp add: storeContext_def chunkText_1500 Let_def)
qed

text \<open>
  C8 as stated fails: the two chunks of that call differ in the metadata field
  \<open>text\<close> (even when the clock stands still), and they differ in \<open>timestamp\<close> when
  the clock moves on by a millisecond between the first chunk and the second.
\<close>

theorem storeContext_chunks_differ_in_text_and_timestamp:
  "map_option (\<lambda>r. map (\<lambda>v. map_of (vec_metadata v) (str ''text'')) (concat (fst r)))
     (storeContext (\<lambda>cs. Inr (map (\<lambda>c. 0 :: nat) cs)) (\<lambda>n b. True)
        (\<lambda>i. str ''2024-01-01T00:00:00.000Z'') (replicate 1500 0x61) []) =
   Some [Some (JStr (replicate 1000 0x61)), Some (JStr (replicate 600 0x61))] \<and>
   map_option (\<lambda>r. map (\<lambda>v. map_of (vec_metadata v) (str ''timestamp'')) (concat (fst r)))
     (storeContext (\<lambda>cs. Inr (map (\<lambda>c. 0 :: nat) cs)) (\<lambda>n b. True)
        (\<lambda>i. if i = 0 then str ''2024-01-01T00:00:00.000Z'' else str ''2024-01-01T00:00:00.001Z'')
        (replicate 1500 0x61) []) =
   Some [Some (JStr (str ''2024-01-01T00:00:00.000Z'')), Some (JStr (str ''2024-01-01T00:00:00.001Z''))]"
  using metadata_keys_distinct
  by (simp add: storeContext_1500 assembleVectors_def update_conv')

section \<open>Properties of the grouping\<close>

text \<open>
  As long as no result has a type that names a property of \<open>Object.prototype\<close>, the
  loop sorts the results into the four buckets, in order, and everything that is not
  \<open>conversation\<close>, \<open>code\<close> or \<open>documentation\<close> goes to \<open>other\<close>.
\<close>

lemma groupResults_partition:
  assumes "\<forall>r \<in> set results. jsToString (resultType r) \<notin> set objectPrototypeKeys"
  shows "groupResults results g =
    Inr \<lparr> g_conversation =
            g_conversation g @ filter (\<lambda>r. jsToString (resultType r) = str ''conversation'') results,
          g_code = g_code g @ filter (\<lambda>r. jsToString (resultType r) = str ''code'') results,
          g_documentation =
            g_documentation g @ filter (\<lambda>r. jsToString (resultType r) = str ''documentation'') results,
          g_other =
            g_other g @ filter (\<lambda>r. jsToString (resultType r) \<notin>
              {str ''conversation'', str ''code'', str ''documentation''}) results \<rparr>"
  using assms
proof (induction results arbitrary: g)
  case Nil
  then show ?case by simp
next
  case (Cons r rs)
  have ne: "str ''conversation'' \<noteq> str ''code''" "str ''conversation'' \<noteq> str ''documentation''"
    "str ''code'' \<noteq> str ''documentation''" "str ''other'' \<noteq> str ''conversation''"
    "str ''other'' \<noteq> str ''code''" "str ''other'' \<noteq> str ''documentation''"
    by (simp_all add: str_def)
  from Cons.prems have rest: "\<forall>r \<in> set rs. jsToString (resultType r) \<notin> set objectPrototypeKeys"
    and here: "jsToString (resultType r) \<notin> set objectPrototypeKeys" by simp_all
  show ?case
    using ne here by (auto simp: Let_def Cons.IH [OF rest])
qed

text \<open>The example of the specification: types code, code, documentation, weird.\<close>

lemma groupResults_example:
  "map_sum id
     (\<lambda>g. (length (g_conversation g), length (g_code g), length (g_documentation g),
           length (g_other g)))
     (groupResults
        (map (\<lambda>t. \<lparr> res_id = str ''r'', res_score = (0 :: nat), res_text = None,
                     res_metadata = Some [(str ''type'', JStr (str t))] \<rparr>)
           [''code'', ''code'', ''documentation'', ''weird''])
        emptyGrouped)
   = Inr (0, 2, 1, 1)"
  by (simp add: resultType_def emptyGrouped_def objectPrototypeKeys_def str_def Let_def)

text \<open>
  C9. A result whose type is not one of the three named buckets is claimed to land in
  \<open>other\<close>. A result stored with \<open>type: 'constructor'\<close> does not: \<open>grouped['constructor']\<close>
  is the inherited \<open>Object\<close> function, which is truthy, so the first branch is taken and
  \<open>grouped[type].push(result)\<close> throws a \<open>TypeError\<close>; \<open>getRelevantContext\<close> returns
  no grouping at all.
\<close>

theorem getRelevantContext_constructor_throws:
  "getRelevantContext (\<lambda>q. Inr (1 :: nat))
     (\<lambda>r. Inr [\<lparr> match_id = str ''ctx_1'', match_score = (1 :: nat),
                   match_metadata = Some [(str ''text'', JStr (str ''hello'')),
                                          (str ''type'', JStr (str ''constructor''))] \<rparr>])
     (str ''hello'') None None 10 = Inl TypeError"
  by (simp add: getRelevantContext_def searchContext_def toResult_def resultType_def
      emptyGrouped_def objectPrototypeKeys_def str_def)

section \<open>Properties of the ids of the MCP server\<close>






text \<open>
  The suffix can be shorter than eight characters: when \<open>Math.random()\<close> is \<open>0.5\<close>,
  which is \<open>0.i\<close> in base 36, the id at clock 0 is \<open>ctx_0_i\<close>.
\<close>

lemma indexTextId_short_suffix: "indexTextId 0 (str ''0.i'') = str ''ctx_0_i''"
  by (simp add: indexTextId_def decNat.simps digit_def str_def js_slice_def)

section \<open>Properties of the identifier generator\<close>

lemma length_md5: "length (md5 msg) = 16"
  by (simp add: md5_def le_bytes_def split: prod.splits)

lemma length_hex: "length (hex bs) = 2 * length bs"
  by (induction bs) (simp_all add: hex_def)

lemma hexDigit_all: "\<forall>n \<in> {..<16}. hexDigit n \<in> set (str ''0123456789abcdef'')"
  by (simp add: lessThan_nat_numeral lessThan_Suc hexDigit_def str_def)

lemma hexDigit_range: "n < 16 \<Longrightarrow> hexDigit n \<in> set (str ''0123456789abcdef'')"
  using hexDigit_all by blast

lemma set_hex: "set (hex bs) \<subseteq> set (str ''0123456789abcdef'')"
proof -
  have "hexDigit (unat b div 16) \<in> set (str ''0123456789abcdef'')"
       "hexDigit (unat b mod 16) \<in> set (str ''0123456789abcdef'')" for b :: byte
  proof -
    have "unat b < 256" using unsigned_less [of b] by simp
    then have "unat b div 16 < 16" by simp
    then show "hexDigit (unat b div 16) \<in> set (str ''0123456789abcdef'')"
      by (rule hexDigit_range)
    show "hexDigit (unat b mod 16) \<in> set (str ''0123456789abcdef'')"
      by (rule hexDigit_range) simp
  qed
  then show ?thesis unfolding hex_def by (induction bs) auto
qed

lemma length_md5_hex: "length (md5_hex s) = 32"
  by (simp add: md5_hex_def length_hex length_md5)

lemma js_slice_take: "js_slice s 0 (int n) = take n s"
  using js_slice_nat [of s 0 n] by simp

lemma generateId_take:
  "generateId text metadata = str ''ctx_'' @ take 16 (md5_hex (text @ stringify metadata))"
  using js_slice_take [of "md5_hex (text @ stringify metadata)" 16]
  by (simp add: generateId_def)

lemma update_split: "\<exists>pre post. \<forall>v. AList.update k v m = pre @ (k, v) # post"
proof (induction m)
  case Nil
  show ?case by (rule exI [of _ "[]"], rule exI [of _ "[]"]) simp
next
  case (Cons p m)
  show ?case
  proof (cases "fst p = k")
    case True
    show ?thesis by (rule exI [of _ "[]"], rule exI [of _ m]) (simp add: True)
  next
    case False
    from Cons obtain pre where "\<exists>post. \<forall>v. AList.update k v m = pre @ (k, v) # post" ..
    then obtain post where "\<forall>v. AList.update k v m = pre @ (k, v) # post" ..
    with False show ?thesis
      by (intro exI [of _ "p # pre"] exI [of _ post]) simp
  qed
qed

lemma intercalate_Cons: "ys \<noteq> [] \<Longrightarrow> intercalate sep (x # ys) = x @ sep @ intercalate sep ys"
  by (cases ys) simp_all

lemma intercalate_split:
  "\<exists>A B. \<forall>y. intercalate sep (xs @ y # zs) = A @ y @ B"
proof (induction xs)
  case Nil
  show ?case
  proof (cases zs)
    case Nil
    show ?thesis by (rule exI [of _ "[]"], rule exI [of _ "[]"]) (simp add: Nil)
  next
    case (Cons z zs')
    show ?thesis
      by (rule exI [of _ "[]"], rule exI [of _ "sep @ intercalate sep (z # zs')"]) (simp add: Cons)
  qed
next
  case (Cons x xs)
  then obtain A where "\<exists>B. \<forall>y. intercalate sep (xs @ y # zs) = A @ y @ B" ..
  then obtain B where ab: "\<forall>y. intercalate sep (xs @ y # zs) = A @ y @ B" ..
  show ?case
    by (rule exI [of _ "x @ sep @ A"], rule exI [of _ B]) (simp add: intercalate_Cons ab)
qed

lemma stringify_chunkIndex_inj:
  assumes "stringify (AList.update k (JNum (int i)) m) = stringify (AList.update k (JNum (int j)) m)"
  shows "i = j"
proof -
  from update_split [of k m]
  obtain pre where "\<exists>post. \<forall>v. AList.update k v m = pre @ (k, v) # post" ..
  then obtain post where u: "\<forall>v. AList.update k v m = pre @ (k, v) # post" ..
  from intercalate_split [of "str '',''" "map stringifyProperty pre" "map stringifyProperty post"]
  obtain A where "\<exists>B. \<forall>y. intercalate (str '','')
      (map stringifyProperty pre @ y # map stringifyProperty post) = A @ y @ B" ..
  then obtain B where ab: "\<forall>y. intercalate (str '','')
      (map stringifyProperty pre @ y # map stringifyProperty post) = A @ y @ B" ..
  have "stringify (AList.update k (JNum (int n)) m) =
        str ''{'' @ A @ quoteJSONString k @ str '':'' @ decNat n @ B @ str ''}''" for n
    using u ab by (simp add: stringify_def stringifyProperty_def numberToString_def)
  with assms have "decNat i = decNat j" by simp
  then show ?thesis by (rule decNat_inj)
qed

subsection \<open>Two ids computed\<close>

text \<open>
  The ids of the text \<open>hello\<close> with the metadata
  \<open>{ tag: "01112272e24e4c9f", chunkIndex: 1 }\<close> and with
  \<open>{ tag: "d3cad27cf3b2bf34", chunkIndex: 0 }\<close>. What is hashed is
  \<open>hello{"tag":"01112272e24e4c9f","chunkIndex":1}\<close>, of digest
  \<open>90f2f1155b0d4d93caff603fa4c1e38b\<close>, and
  \<open>hello{"tag":"d3cad27cf3b2bf34","chunkIndex":0}\<close>, of digest
  \<open>90f2f1155b0d4d9316000a8360487b1a\<close>: each is one block of 16 words, whose 64 steps
  are evaluated eight at a time.
\<close>

lemma upt_64:
  "[0..<64] = [0..<8] @ [8..<16] @ [16..<24] @ [24..<32] @ [32..<40] @ [40..<48] @ [48..<56] @ [56..<64]"
  by code_simp

lemma generateId_tag_1:
  "generateId (str ''hello'') [(str ''tag'', JStr (str ''01112272e24e4c9f'')), (str ''chunkIndex'', JNum 1)] =
   str ''ctx_90f2f1155b0d4d93''"
proof -
  let ?msg = "md5_pad (utf8 (str ''hello'' @ stringify [(str ''tag'', JStr (str ''01112272e24e4c9f'')), (str ''chunkIndex'', JNum 1)]))"
  let ?W = "[0x6c6c6568, 0x74227b6f, 0x3a226761, 0x31313022,
       0x37323231, 0x34326532, 0x39633465, 0x222c2266,
       0x6e756863, 0x646e496b, 0x3a227865, 0x00807d31,
       0x00000000, 0x00000000, 0x00000170, 0x00000000] :: 32 word list"
  have one: "blocksOf 64 ?msg = [?msg]"
    by code_simp
  have words: "map le_word (blocksOf 4 ?msg) = ?W"
    by code_simp
  have s0: "fold (md5_step ?W) [0..<8] (0x67452301, 0xefcdab89, 0x98badcfe, 0x10325476) =
      (0x66538991, 0x58febbfe, 0xbd0e728a, 0x3daa7f96)"
    by code_simp
  have s1: "fold (md5_step ?W) [8..<16] (0x66538991, 0x58febbfe, 0xbd0e728a, 0x3daa7f96) =
      (0x8122cd98, 0xbc8e29b2, 0x0cca2af8, 0x6cff5cbd)"
    by code_simp
  have s2: "fold (md5_step ?W) [16..<24] (0x8122cd98, 0xbc8e29b2, 0x0cca2af8, 0x6cff5cbd) =
      (0x3afc8ae0, 0x431c9dfb, 0xa4fd7f6c, 0x6ca11f45)"
    by code_simp
  have s3: "fold (md5_step ?W) [24..<32] (0x3afc8ae0, 0x431c9dfb, 0xa4fd7f6c, 0x6ca11f45) =
      (0xc2d8e889, 0x372db023, 0xdf112b24, 0x337dbfda)"
    by code_simp
  have s4: "fold (md5_step ?W) [32..<40] (0xc2d8e889, 0x372db023, 0xdf112b24, 0x337dbfda) =
      (0x4000cb10, 0x5224efb1, 0x5f14559d, 0x1efb4d15)"
    by code_simp
  have s5: "fold (md5_step ?W) [40..<48] (0x4000cb10, 0x5224efb1, 0x5f14559d, 0x1efb4d15) =
      (0x8e559143, 0xe2d3411d, 0xe60ebe39, 0x61761abb)"
    by code_simp
  have s6: "fold (md5_step ?W) [48..<56] (0x8e559143, 0xe2d3411d, 0xe60ebe39, 0x61761abb) =
      (0xe7fda7f5, 0xed2fa5fe, 0x005a860a, 0x0233f723)"
    by code_simp
  have s7: "fold (md5_step ?W) [56..<64] (0xe7fda7f5, 0xed2fa5fe, 0x005a860a, 0x0233f723) =
      (0xaeaccf8f, 0xa37f61d2, 0xa6a622cc, 0x7bb16d2e)"
    by code_simp
  have steps: "fold (md5_step ?W) [0..<64] (0x67452301, 0xefcdab89, 0x98badcfe, 0x10325476) =
      (0xaeaccf8f, 0xa37f61d2, 0xa6a622cc, 0x7bb16d2e)"
    unfolding upt_64 fold_append by (simp only: o_apply s0 s1 s2 s3 s4 s5 s6 s7)
  have block: "md5_block (0x67452301, 0xefcdab89, 0x98badcfe, 0x10325476) ?msg =
      (0x15f1f290, 0x934d0d5b, 0x3f60ffca, 0x8be3c1a4)"
    unfolding md5_block.simps words steps by simp
  have digest: "js_slice (hex (concat (map (le_bytes 4)
      [0x15f1f290, 0x934d0d5b, 0x3f60ffca, 0x8be3c1a4 :: 32 word]))) 0 16 =
      str ''90f2f1155b0d4d93''"
    by code_simp
  show ?thesis
    unfolding generateId_def md5_hex_def md5_def one
    by (simp only: fold_simps id_apply o_apply block prod.case digest) (simp add: str_def)
qed

lemma generateId_tag_0:
  "generateId (str ''hello'') [(str ''tag'', JStr (str ''d3cad27cf3b2bf34'')), (str ''chunkIndex'', JNum 0)] =
   str ''ctx_90f2f1155b0d4d93''"
proof -
  let ?msg = "md5_pad (utf8 (str ''hello'' @ stringify [(str ''tag'', JStr (str ''d3cad27cf3b2bf34'')), (str ''chunkIndex'', JNum 0)]))"
  let ?W = "[0x6c6c6568, 0x74227b6f, 0x3a226761, 0x63336422,
       0x37326461, 0x62336663, 0x33666232, 0x222c2234,
       0x6e756863, 0x646e496b, 0x3a227865, 0x00807d30,
       0x00000000, 0x00000000, 0x00000170, 0x00000000] :: 32 word list"
  have one: "blocksOf 64 ?msg = [?msg]"
    by code_simp
  have words: "map le_word (blocksOf 4 ?msg) = ?W"
    by code_simp
  have s0: "fold (md5_step ?W) [0..<8] (0x67452301, 0xefcdab89, 0x98badcfe, 0x10325476) =
      (0x66c2991e, 0x534fb265, 0x3de99a0b, 0x549b31fa)"
    by code_simp
  have s1: "fold (md5_step ?W) [8..<16] (0x66c2991e, 0x534fb265, 0x3de99a0b, 0x549b31fa) =
      (0x9b0ca36a, 0xdf96614a, 0x318f70af, 0x43529d9f)"
    by code_simp
  have s2: "fold (md5_step ?W) [16..<24] (0x9b0ca36a, 0xdf96614a, 0x318f70af, 0x43529d9f) =
      (0x612d4ffa, 0x31b303b2, 0xe5218d09, 0xb2faff8a)"
    by code_simp
  have s3: "fold (md5_step ?W) [24..<32] (0x612d4ffa, 0x31b303b2, 0xe5218d09, 0xb2faff8a) =
      (0x9b8df8b4, 0xaeae0a5d, 0xc44d318e, 0x2d85fd97)"
    by code_simp
  have s4: "fold (md5_step ?W) [32..<40] (0x9b8df8b4, 0xaeae0a5d, 0xc44d318e, 0x2d85fd97) =
      (0x900055c1, 0x52a8441b, 0x27741143, 0xd54e8f4d)"
    by code_simp
  have s5: "fold (md5_step ?W) [40..<48] (0x900055c1, 0x52a8441b, 0x27741143, 0xd54e8f4d) =
      (0xd45d0bd8, 0x4a35df66, 0xe6ecd7c0, 0xee5c4164)"
    by code_simp
  have s6: "fold (md5_step ?W) [48..<56] (0xd45d0bd8, 0x4a35df66, 0xe6ecd7c0, 0xee5c4164) =
      (0xa8152011, 0xd19eaecb, 0x86976ab3, 0x9efe4fd9)"
    by code_simp
  have s7: "fold (md5_step ?W) [56..<64] (0xa8152011, 0xd19eaecb, 0x86976ab3, 0x9efe4fd9) =
      (0xaeaccf8f, 0xa37f61d2, 0xea4f2318, 0x0a48f3ea)"
    by code_simp
  have steps: "fold (md5_step ?W) [0..<64] (0x67452301, 0xefcdab89, 0x98badcfe, 0x10325476) =
      (0xaeaccf8f, 0xa37f61d2, 0xea4f2318, 0x0a48f3ea)"
    unfolding upt_64 fold_append by (simp only: o_apply s0 s1 s2 s3 s4 s5 s6 s7)
  have block: "md5_block (0x67452301, 0xefcdab89, 0x98badcfe, 0x10325476) ?msg =
      (0x15f1f290, 0x934d0d5b, 0x830a0016, 0x1a7b4860)"
    unfolding md5_block.simps words steps by simp
  have digest: "js_slice (hex (concat (map (le_bytes 4)
      [0x15f1f290, 0x934d0d5b, 0x830a0016, 0x1a7b4860 :: 32 word]))) 0 16 =
      str ''90f2f1155b0d4d93''"
    by code_simp
  show ?thesis
    unfolding generateId_def md5_hex_def md5_def one
    by (simp only: fold_simps id_apply o_apply block prod.case digest) (simp add: str_def)
qed

subsection \<open>What the generator guarantees\<close>

text \<open>
  C7 as stated fails: the metadata objects \<open>{ tag: "01112272e24e4c9f", chunkIndex: 1 }\<close>
  and \<open>{ tag: "d3cad27cf3b2bf34", chunkIndex: 0 }\<close> differ in \<open>chunkIndex\<close>, and with
  the text \<open>hello\<close> both get the id \<open>ctx_90f2f1155b0d4d93\<close>: the two digests agree in
  the 16 digits that are kept.
\<close>

theorem generateId_chunkIndex_collision:
  "map_of [(str ''tag'', JStr (str ''01112272e24e4c9f'')), (str ''chunkIndex'', JNum 1)]
     (str ''chunkIndex'') \<noteq>
   map_of [(str ''tag'', JStr (str ''d3cad27cf3b2bf34'')), (str ''chunkIndex'', JNum 0)]
     (str ''chunkIndex'') \<and>
   generateId (str ''hello'')
     [(str ''tag'', JStr (str ''01112272e24e4c9f'')), (str ''chunkIndex'', JNum 1)] =
   generateId (str ''hello'')
     [(str ''tag'', JStr (str ''d3cad27cf3b2bf34'')), (str ''chunkIndex'', JNum 0)]"
  unfolding generateId_tag_1 generateId_tag_0 by (simp add: str_def)

text \<open>
  C7, amended. \<open>generateId\<close> is a function of its two arguments; every id is
  \<open>ctx_\<close> followed by 16 lower-case hexadecimal digits, the first half of the MD5
  digest of \<open>text + JSON.stringify(metadata)\<close>; giving one metadata object two
  different chunk indexes (safe integers, as every array index is) gives two different
  strings to hash; and two ids of one text are equal exactly when the two half digests
  are.
\<close>

theorem generateId_properties:
  "generateId text metadata = str ''ctx_'' @ take 16 (md5_hex (text @ stringify metadata)) \<and>
   length (generateId text metadata) = 20 \<and>
   take 4 (generateId text metadata) = str ''ctx_'' \<and>
   set (drop 4 (generateId text metadata)) \<subseteq> set (str ''0123456789abcdef'') \<and>
   (isSafeInteger (int i) \<and> isSafeInteger (int j) \<and> i \<noteq> j \<longrightarrow>
      text @ stringify (AList.update (str ''chunkIndex'') (JNum (int i)) metadata) \<noteq>
      text @ stringify (AList.update (str ''chunkIndex'') (JNum (int j)) metadata)) \<and>
   (generateId text meta1 = generateId text meta2 \<longleftrightarrow>
      take 16 (md5_hex (text @ stringify meta1)) = take 16 (md5_hex (text @ stringify meta2)))"
proof -
  have sub: "set (take 16 (md5_hex s)) \<subseteq> set (str ''0123456789abcdef'')" for s
    using set_hex [of "md5 (utf8 s)"] set_take_subset [of 16 "md5_hex s"]
    by (auto simp: md5_hex_def)
  have len: "length (str ''ctx_'') = 4" by (simp add: str_def)
  show ?thesis
    using stringify_chunkIndex_inj [of "str ''chunkIndex''" i metadata j]
      sub [of "text @ stringify metadata"] len
    by (auto simp: generateId_take length_md5_hex)
qed

theorem generateId_properties_witness:
  "length (generateId (str ''A. B.'') [(str ''project'', JStr (str ''p''))]) = 20 \<and>
   str ''A. B.'' @ stringify (AList.update (str ''chunkIndex'') (JNum (int 0))
                               [(str ''project'', JStr (str ''p''))]) \<noteq>
   str ''A. B.'' @ stringify (AList.update (str ''chunkIndex'') (JNum (int 1))
                               [(str ''project'', JStr (str ''p''))])"
proof -
  note t = generateId_properties [where ?text = "str ''A. B.''"
      and ?metadata = "[(str ''project'', JStr (str ''p''))]" and ?i = 0 and ?j = 1]
  from t have 1: "length (generateId (str ''A. B.'') [(str ''project'', JStr (str ''p''))]) = 20"
    by (rule conjunct2 [THEN conjunct1])
  from t have "isSafeInteger (int 0) \<and> isSafeInteger (int 1) \<and> (0 :: nat) \<noteq> 1 \<longrightarrow>
      str ''A. B.'' @ stringify (AList.update (str ''chunkIndex'') (JNum (int 0))
                                  [(str ''project'', JStr (str ''p''))]) \<noteq>
      str ''A. B.'' @ stringify (AList.update (str ''chunkIndex'') (JNum (int 1))
                                  [(str ''project'', JStr (str ''p''))])"
    by (rule conjunct2 [THEN conjunct2, THEN conjunct2, THEN conjunct2, THEN conjunct1])
  then have 2: "str ''A. B.'' @ stringify (AList.update (str ''chunkIndex'') (JNum (int 0))
                                  [(str ''project'', JStr (str ''p''))]) \<noteq>
      str ''A. B.'' @ stringify (AList.update (str ''chunkIndex'') (JNum (int 1))
                                  [(str ''project'', JStr (str ''p''))])"
    by (rule mp) (simp add: isSafeInteger_def)
  from 1 2 show ?thesis by (rule conjI)
qed

end
